theory Spec2Isabelle
  imports Main "HOL-Library.Word"
begin

section \<open>Data model of the query-processor framework\<close>

text \<open>
  \<open>aku_Timestamp\<close> and \<open>aku_ParamId\<close> are unsigned 64-bit integers; all arithmetic on
  them wraps modulo \<open>2 ^ 64\<close>, as C++ arithmetic on \<open>uint64_t\<close> does.
\<close>

type_synonym u16 = "16 word"
type_synonym u64 = "64 word"
type_synonym aku_Timestamp = u64
type_synonym aku_ParamId = u64

text \<open>
  Modelled from the spec: the header \<open>akumuli.h\<close>, which declares the payload flags, is
  not part of the sources at hand. The spec reserves the three payload flags \<open>EMPTY\<close>,
  \<open>LO_MARGIN\<close> and \<open>HI_MARGIN\<close> as in-band control records; every other value of the
  16-bit \<open>type\<close> field is kept as \<open>OTHER\<close>. The operator only ever compares the field
  with \<open>EMPTY\<close> and stores the two margin flags.
\<close>

datatype aku_PData_type = EMPTY | LO_MARGIN | HI_MARGIN | OTHER u16

text \<open>
  The payload \<open>{ value: f64, size: u16, flags: u16 }\<close>. The floating-point value is
  carried as its 64-bit pattern: the operator never computes with it.
\<close>

record aku_PData =
  float64 :: u64
  psize :: u16
  ptype :: aku_PData_type

record aku_Sample =
  paramid :: aku_ParamId
  timestamp :: aku_Timestamp
  payload :: aku_PData

text \<open>
  Modelled from the spec: \<open>sizeof(aku_Sample)\<close> comes from the missing header. With the
  spec's layout (two 64-bit words, a 64-bit float and two 16-bit fields, aligned to 8
  bytes) it is 32. No property below depends on the number.
\<close>

definition sizeof_aku_Sample :: u16 where
  "sizeof_aku_Sample = 32"

definition NO_DATA :: aku_Sample where
  "NO_DATA = \<lparr>paramid = 0, timestamp = 0,
     payload = \<lparr>float64 = 0, psize = sizeof_aku_Sample, ptype = EMPTY\<rparr>\<rparr>"

definition SAMPLING_LO_MARGIN :: aku_Sample where
  "SAMPLING_LO_MARGIN = \<lparr>paramid = 0, timestamp = 0,
     payload = \<lparr>float64 = 0, psize = sizeof_aku_Sample, ptype = LO_MARGIN\<rparr>\<rparr>"

definition SAMPLING_HI_MARGIN :: aku_Sample where
  "SAMPLING_HI_MARGIN = \<lparr>paramid = 0, timestamp = 0,
     payload = \<lparr>float64 = 0, psize = sizeof_aku_Sample, ptype = HI_MARGIN\<rparr>\<rparr>"

subsection \<open>Downstream nodes\<close>

text \<open>
  \<open>Node\<close> is an abstract class; \<open>GroupByTime::put\<close> uses only its virtual method
  \<open>put\<close>. A node is modelled by that method with the node's own state made explicit:
  it takes the state and a sample and returns the answer with the new state.
\<close>

type_synonym 'n Node = "'n \<Rightarrow> aku_Sample \<Rightarrow> bool \<times> 'n"

text \<open>
  An instrumented node: it behaves as \<open>nxt\<close> and appends every sample it is given to a
  log. The log is how the properties below speak about what was delivered downstream, and
  in which order.
\<close>

definition record_puts :: "'n Node \<Rightarrow> (aku_Sample list \<times> 'n) Node" where
  "record_puts nxt = (\<lambda>(log, n) x. case nxt n x of (r, n') \<Rightarrow> (r, (log @ [x], n')))"

text \<open>Two concrete stateless nodes: one takes every sample, one refuses every sample.\<close>

definition accept_all :: "unit Node" where
  "accept_all = (\<lambda>n x. (True, n))"

definition reject_all :: "unit Node" where
  "reject_all = (\<lambda>n x. (False, n))"

section \<open>The group-by-time operator\<close>

text \<open>
  The fields \<open>step_\<close>, \<open>first_hit_\<close>, \<open>lowerbound_\<close> and \<open>upperbound_\<close> of the
  struct. A name cannot end with an underscore here, so the fields drop it.
\<close>

record GroupByTime =
  step :: aku_Timestamp
  first_hit :: bool
  lowerbound :: aku_Timestamp
  upperbound :: aku_Timestamp

text \<open>
  The constructors. \<open>AKU_MIN_TIMESTAMP\<close> is a macro of a header that is not at hand; it
  is a parameter here.
\<close>

definition GroupByTime_default :: "aku_Timestamp \<Rightarrow> GroupByTime" where
  "GroupByTime_default AKU_MIN_TIMESTAMP =
     \<lparr>step = 0, first_hit = True,
      lowerbound = AKU_MIN_TIMESTAMP, upperbound = AKU_MIN_TIMESTAMP\<rparr>"

definition GroupByTime_step :: "aku_Timestamp \<Rightarrow> aku_Timestamp \<Rightarrow> GroupByTime" where
  "GroupByTime_step AKU_MIN_TIMESTAMP step0 =
     \<lparr>step = step0, first_hit = True,
      lowerbound = AKU_MIN_TIMESTAMP, upperbound = AKU_MIN_TIMESTAMP\<rparr>"

definition GroupByTime_empty :: "GroupByTime \<Rightarrow> bool" where
  "GroupByTime_empty s = (step s = 0)"

text \<open>
  The first block of \<open>GroupByTime::put\<close>: on the first hit the window is aligned to
  the sample's timestamp (\<open>AKU_UNLIKELY\<close> is a hint to the compiler and changes
  nothing). Division, multiplication and addition are those of \<open>uint64_t\<close>; the caller
  has checked \<open>step_ \<noteq> 0\<close>.
\<close>

definition first_hit_align :: "GroupByTime \<Rightarrow> aku_Timestamp \<Rightarrow> GroupByTime" where
  "first_hit_align s ts =
     (if first_hit s then
        let aligned = ts div step s * step s
        in s\<lparr>first_hit := False, lowerbound := aligned, upperbound := aligned + step s\<rparr>
      else s)"

text \<open>
  \<open>GroupByTime::put(sample, next)\<close>. The result is the returned flag, the operator's
  state after the call and the downstream node's state after the call. An early
  \<open>return false\<close> leaves the operator as it was at that point.
\<close>

definition GroupByTime_put ::
  "GroupByTime \<Rightarrow> aku_Sample \<Rightarrow> 'n Node \<Rightarrow> 'n \<Rightarrow> bool \<times> GroupByTime \<times> 'n" where
  "GroupByTime_put s sample nxt n =
     (if step s \<noteq> 0 \<and> ptype (payload sample) \<noteq> EMPTY then
        let ts = timestamp sample;
            s1 = first_hit_align s ts
        in if ts \<ge> upperbound s1 then
             let empty = SAMPLING_HI_MARGIN\<lparr>timestamp := upperbound s1\<rparr>;
                 (ok, n1) = nxt n empty
             in if \<not> ok then (False, s1, n1)
                else
                  let s2 = s1\<lparr>lowerbound := lowerbound s1 + step s1,
                              upperbound := upperbound s1 + step s1\<rparr>;
                      (r, n2) = nxt n1 sample
                  in (r, s2, n2)
           else if ts < lowerbound s1 then
             let empty = SAMPLING_LO_MARGIN\<lparr>timestamp := upperbound s1\<rparr>;
                 (ok, n1) = nxt n empty
             in if \<not> ok then (False, s1, n1)
                else
                  let s2 = s1\<lparr>lowerbound := lowerbound s1 - step s1,
                              upperbound := upperbound s1 - step s1\<rparr>;
                      (r, n2) = nxt n1 sample
                  in (r, s2, n2)
           else
             let (r, n1) = nxt n sample in (r, s1, n1)
      else
        let (r, n1) = nxt n sample in (r, s, n1))"

subsection \<open>The pieces of a call\<close>

text \<open>
  Names for what \<open>put\<close> builds on its two marker branches: the marker it hands to
  \<open>next\<close> (the margin constant with the timestamp set to the current upper bound) and
  the window moved by one step.
\<close>

definition hi_marker :: "GroupByTime \<Rightarrow> aku_Sample" where
  "hi_marker s = SAMPLING_HI_MARGIN\<lparr>timestamp := upperbound s\<rparr>"

definition lo_marker :: "GroupByTime \<Rightarrow> aku_Sample" where
  "lo_marker s = SAMPLING_LO_MARGIN\<lparr>timestamp := upperbound s\<rparr>"

definition forward_step :: "GroupByTime \<Rightarrow> GroupByTime" where
  "forward_step s =
     s\<lparr>lowerbound := lowerbound s + step s, upperbound := upperbound s + step s\<rparr>"

definition backward_step :: "GroupByTime \<Rightarrow> GroupByTime" where
  "backward_step s =
     s\<lparr>lowerbound := lowerbound s - step s, upperbound := upperbound s - step s\<rparr>"

text \<open>
  The bucket of \<open>ts\<close> fits below \<open>2 ^ 64\<close>: the aligned lower bound plus one step
  does not wrap around.
\<close>

definition bucket_fits :: "aku_Timestamp \<Rightarrow> aku_Timestamp \<Rightarrow> bool" where
  "bucket_fits stp ts = (unat (ts div stp * stp) + unat stp < 2 ^ 64)"

text \<open>
  The window of an operator that has seen its first sample: one step wide, without
  wrap-around, and starting at a multiple of the step.
\<close>

definition window_aligned :: "GroupByTime \<Rightarrow> bool" where
  "window_aligned s =
     (step s \<noteq> 0 \<and> \<not> first_hit s \<and>
      unat (upperbound s) = unat (lowerbound s) + unat (step s) \<and>
      unat (step s) dvd unat (lowerbound s))"

subsection \<open>Feeding a stream\<close>

text \<open>
  Modelled from the spec: the caller that pumps samples through the operator is not in
  the sources at hand. The spec says that each \<open>put\<close> returns a boolean, that \<open>false\<close>
  means the downstream is full or cancelled, and that upstream must then stop. So the
  samples are put one after the other until a call answers false.
\<close>

fun GroupByTime_put_all ::
  "GroupByTime \<Rightarrow> aku_Sample list \<Rightarrow> 'n Node \<Rightarrow> 'n \<Rightarrow> bool \<times> GroupByTime \<times> 'n" where
  "GroupByTime_put_all s [] nxt n = (True, s, n)"
| "GroupByTime_put_all s (x # xs) nxt n =
     (case GroupByTime_put s x nxt n of
        (ok, s', n') \<Rightarrow> if ok then GroupByTime_put_all s' xs nxt n' else (False, s', n'))"

text \<open>A data sample of series \<open>1\<close> at a given time, and the marker times of a log.\<close>

definition data_sample :: "aku_Timestamp \<Rightarrow> aku_Sample" where
  "data_sample ts = \<lparr>paramid = 1, timestamp = ts,
     payload = \<lparr>float64 = 0, psize = sizeof_aku_Sample, ptype = OTHER 16\<rparr>\<rparr>"

definition hi_margin_timestamps :: "aku_Sample list \<Rightarrow> aku_Timestamp list" where
  "hi_margin_timestamps log = map timestamp (filter (\<lambda>x. ptype (payload x) = HI_MARGIN) log)"

section \<open>Series names in joined form\<close>

text \<open>
  Modelled from the spec: the status codes are declared in a header that is not part of
  the sources at hand. The spec lists them by name; their numbers are a parameter
  \<open>code\<close> of the functions that return one.
\<close>

datatype aku_Status = Ok | NotFound | BadInput | Overflow | IoError | Closed
  | NotPermitted | Access | QueryParseError | Internal

text \<open>
  Modelled from the spec: the body of \<open>StorageSession::get_series_ids\<close> is not part of
  the sources at hand, only its declaration and the comment on it. By that comment and
  the spec, \<open>foo:bar:buz tag=val\<close> stands for \<open>foo tag=val\<close>, \<open>bar tag=val\<close> and
  \<open>buz tag=val\<close>. The name is cut at its colons. The last piece carries the tags: they
  are its text from the first space on, and what stands before that space is the last
  sub-name. The pieces before the last are sub-names as they are.
\<close>

primrec split_on :: "char \<Rightarrow> string \<Rightarrow> string list" where
  "split_on d [] = [[]]"
| "split_on d (c # cs) =
     (if c = d then [] # split_on d cs
      else (case split_on d cs of [] \<Rightarrow> [[c]] | x # xs \<Rightarrow> (c # x) # xs))"

definition name_pieces :: "string \<Rightarrow> string list" where
  "name_pieces name = split_on CHR '':'' name"

definition shared_tags :: "string \<Rightarrow> string" where
  "shared_tags name = dropWhile (\<lambda>c. c \<noteq> CHR '' '') (last (name_pieces name))"

definition sub_names :: "string \<Rightarrow> string list" where
  "sub_names name =
     butlast (name_pieces name) @ [takeWhile (\<lambda>c. c \<noteq> CHR '' '') (last (name_pieces name))]"

definition joined_series :: "string \<Rightarrow> string list" where
  "joined_series name = map (\<lambda>m. m @ shared_tags name) (sub_names name)"

text \<open>
  Modelled from the spec: a series name is \<open>metric tag1=v1 tag2=v2\<close>, the tags after
  the metric and a space. A sub-name parses as tagged when it has that form itself, that
  is, when it holds a space.
\<close>

definition parses_as_tagged :: "string \<Rightarrow> bool" where
  "parses_as_tagged m = (CHR '' '' \<in> set m)"

text \<open>
  Modelled from the spec: \<open>get_series_ids\<close> returns the ids of the series of a joined
  name in input order, through the array \<open>ids\<close>, and the number of series; it fails
  with \<open>BadInput\<close> if a sub-name parses as tagged itself. The result is the returned
  \<open>int\<close> with the array after the call: the number of series, or the error code times
  \<open>-1\<close>. Error codes are unsigned numbers (\<open>code\<close>), so a failure returns at most 0
  and a success at least 1. The name registry is outside the sources and the spec gives
  only its interface, so \<open>series_id\<close>, the registry's id of a series name, is a
  parameter. The array is the list \<open>ids\<close> and \<open>ids_size\<close> its length. The spec names
  no status of its own for an array that is too small for the ids; the call is then
  answered with \<open>BadInput\<close> as well, and nothing is written.
\<close>

definition get_series_ids ::
  "(string \<Rightarrow> aku_ParamId) \<Rightarrow> (aku_Status \<Rightarrow> nat) \<Rightarrow>
   string \<Rightarrow> aku_ParamId list \<Rightarrow> int \<times> aku_ParamId list" where
  "get_series_ids series_id code name ids =
     (if \<exists>m \<in> set (sub_names name). parses_as_tagged m then (- int (code BadInput), ids)
      else
        let found = map series_id (joined_series name); k = length found
        in if k \<le> length ids then (int k, found @ drop k ids)
           else (- int (code BadInput), ids))"

text \<open>The text of a joined name: pieces with a colon between them.\<close>

fun join_with :: "char \<Rightarrow> string list \<Rightarrow> string" where
  "join_with d [] = []"
| "join_with d [x] = x"
| "join_with d (x # y # ys) = x @ d # join_with d (y # ys)"

section \<open>The branches of put\<close>

lemma record_puts_apply:
  "record_puts nxt (log, n) x = (fst (nxt n x), (log @ [x], snd (nxt n x)))"
  by (simp add: record_puts_def split: prod.splits)

lemma record_puts_fst [simp]: "fst (record_puts nxt (log, n) x) = fst (nxt n x)"
  by (simp add: record_puts_apply)

lemma record_puts_snd [simp]: "snd (record_puts nxt (log, n) x) = (log @ [x], snd (nxt n x))"
  by (simp add: record_puts_apply)

lemma first_hit_align_fields [simp]:
  "step (first_hit_align s ts) = step s"
  "first_hit (first_hit_align s ts) = False"
  by (simp_all add: first_hit_align_def Let_def)

lemma first_hit_align_id [simp]: "\<not> first_hit s \<Longrightarrow> first_hit_align s ts = s"
  by (simp add: first_hit_align_def)

lemma put_pass:
  assumes "step s = 0 \<or> ptype (payload sample) = EMPTY"
  shows "GroupByTime_put s sample nxt n = (fst (nxt n sample), s, snd (nxt n sample))"
  using assms by (auto simp add: GroupByTime_put_def Let_def split: prod.splits)

lemma put_forward:
  assumes "step s \<noteq> 0" and "ptype (payload sample) \<noteq> EMPTY"
    and "s1 = first_hit_align s (timestamp sample)"
    and "upperbound s1 \<le> timestamp sample"
  shows "GroupByTime_put s sample nxt n =
           (if fst (nxt n (hi_marker s1))
            then (fst (nxt (snd (nxt n (hi_marker s1))) sample), forward_step s1,
                  snd (nxt (snd (nxt n (hi_marker s1))) sample))
            else (False, s1, snd (nxt n (hi_marker s1))))"
  using assms
  by (simp add: GroupByTime_put_def hi_marker_def forward_step_def Let_def split: prod.splits)

lemma put_backward:
  assumes "step s \<noteq> 0" and "ptype (payload sample) \<noteq> EMPTY"
    and "s1 = first_hit_align s (timestamp sample)"
    and "timestamp sample < upperbound s1" and "timestamp sample < lowerbound s1"
  shows "GroupByTime_put s sample nxt n =
           (if fst (nxt n (lo_marker s1))
            then (fst (nxt (snd (nxt n (lo_marker s1))) sample), backward_step s1,
                  snd (nxt (snd (nxt n (lo_marker s1))) sample))
            else (False, s1, snd (nxt n (lo_marker s1))))"
proof -
  from assms(4) have "\<not> upperbound s1 \<le> timestamp sample" by simp
  with assms(1,2,3,5) show ?thesis
    by (simp add: GroupByTime_put_def lo_marker_def backward_step_def Let_def
             split: prod.splits)
qed

lemma put_inside:
  assumes "step s \<noteq> 0" and "ptype (payload sample) \<noteq> EMPTY"
    and "s1 = first_hit_align s (timestamp sample)"
    and "timestamp sample < upperbound s1" and "lowerbound s1 \<le> timestamp sample"
  shows "GroupByTime_put s sample nxt n = (fst (nxt n sample), s1, snd (nxt n sample))"
proof -
  from assms(4) have "\<not> upperbound s1 \<le> timestamp sample" by simp
  moreover from assms(5) have "\<not> timestamp sample < lowerbound s1" by simp
  ultimately show ?thesis using assms(1,2,3)
    by (simp add: GroupByTime_put_def Let_def split: prod.splits)
qed

section \<open>Pass-through cases\<close>

text \<open>
  C6. A sample whose payload type is \<open>EMPTY\<close> is handed to \<open>next\<close> as it is, and
  nothing else is: the call returns what \<open>next.put\<close> returned, and the operator's four
  fields are what they were.
\<close>

theorem C6_empty_sample_pass_through:
  assumes "ptype (payload sample) = EMPTY"
  shows "GroupByTime_put s sample (record_puts nxt) (log, n)
           = (fst (nxt n sample), s, (log @ [sample], snd (nxt n sample)))"
  using assms by (simp add: GroupByTime_put_def record_puts_apply)

theorem C6_empty_sample_pass_through_witness:
  "ptype (payload NO_DATA) = EMPTY \<and>
   GroupByTime_put (GroupByTime_step 0 10) NO_DATA (record_puts reject_all) ([], ())
     = (False, GroupByTime_step 0 10, ([NO_DATA], ()))"
proof -
  have h: "ptype (payload NO_DATA) = EMPTY" by (simp add: NO_DATA_def)
  show ?thesis
    using h C6_empty_sample_pass_through [OF h, of "GroupByTime_step 0 10" reject_all "[]" "()"]
    by (simp add: reject_all_def)
qed

text \<open>
  C9. With \<open>step_ = 0\<close>, the state in which \<open>empty()\<close> answers true, every call
  hands the sample to \<open>next\<close> as it is, returns what \<open>next.put\<close> returned and changes
  none of the operator's fields.
\<close>

theorem C9_disabled_operator_is_identity:
  assumes "GroupByTime_empty s"
  shows "GroupByTime_put s sample (record_puts nxt) (log, n)
           = (fst (nxt n sample), s, (log @ [sample], snd (nxt n sample)))"
  using assms by (simp add: GroupByTime_put_def GroupByTime_empty_def record_puts_apply)

theorem C9_disabled_operator_is_identity_witness:
  "GroupByTime_empty (GroupByTime_default 0) \<and>
   GroupByTime_put (GroupByTime_default 0) SAMPLING_HI_MARGIN (record_puts accept_all) ([], ())
     = (True, GroupByTime_default 0, ([SAMPLING_HI_MARGIN], ()))"
proof -
  have h: "GroupByTime_empty (GroupByTime_default 0)"
    by (simp add: GroupByTime_empty_def GroupByTime_default_def)
  show ?thesis
    using h C9_disabled_operator_is_identity
              [OF h, of SAMPLING_HI_MARGIN accept_all "[]" "()"]
    by (simp add: accept_all_def)
qed

section \<open>Markers refused downstream\<close>

text \<open>
  C3. When \<open>next.put\<close> answers false on the \<open>HI_MARGIN\<close> or \<open>LO_MARGIN\<close> marker that
  a call emits, the call answers false at once: the marker is the only sample delivered
  downstream in that call, so the sample itself is not forwarded.
\<close>

theorem C3_refused_marker_ends_put:
  assumes "step s \<noteq> 0" and "ptype (payload sample) \<noteq> EMPTY"
    and "s1 = first_hit_align s (timestamp sample)"
    and "upperbound s1 \<le> timestamp sample \<and> marker = hi_marker s1 \<or>
         timestamp sample < upperbound s1 \<and> timestamp sample < lowerbound s1 \<and>
           marker = lo_marker s1"
    and "\<not> fst (nxt n marker)"
  shows "GroupByTime_put s sample (record_puts nxt) (log, n)
           = (False, s1, (log @ [marker], snd (nxt n marker)))"
  using assms(4)
proof
  assume "upperbound s1 \<le> timestamp sample \<and> marker = hi_marker s1"
  with assms show ?thesis by (simp add: put_forward)
next
  assume "timestamp sample < upperbound s1 \<and> timestamp sample < lowerbound s1 \<and>
    marker = lo_marker s1"
  with assms show ?thesis by (simp add: put_backward)
qed

theorem C3_refused_marker_ends_put_witness:
  "GroupByTime_put \<lparr>step = 10, first_hit = False, lowerbound = 10, upperbound = 20\<rparr>
      (data_sample 7) (record_puts reject_all) ([], ())
   = (False, \<lparr>step = 10, first_hit = False, lowerbound = 10, upperbound = 20\<rparr>,
      ([SAMPLING_LO_MARGIN\<lparr>timestamp := 20\<rparr>], ()))"
  using C3_refused_marker_ends_put
          [of "\<lparr>step = 10, first_hit = False, lowerbound = 10, upperbound = 20\<rparr>"
              "data_sample 7"
              "\<lparr>step = 10, first_hit = False, lowerbound = 10, upperbound = 20\<rparr>"
              "SAMPLING_LO_MARGIN\<lparr>timestamp := 20\<rparr>" reject_all "()" "[]"]
  by (simp add: data_sample_def lo_marker_def reject_all_def)

text \<open>
  C10. With \<open>step_ > 0\<close> and \<open>first_hit_\<close> false, a call that answers false because
  \<open>next.put\<close> refused the emitted marker leaves the operator as it was: the window has
  not moved.
\<close>

theorem C10_refused_marker_keeps_window:
  assumes "step s \<noteq> 0" and "\<not> first_hit s" and "ptype (payload sample) \<noteq> EMPTY"
    and "upperbound s \<le> timestamp sample \<and> marker = hi_marker s \<or>
         timestamp sample < upperbound s \<and> timestamp sample < lowerbound s \<and>
           marker = lo_marker s"
    and "\<not> fst (nxt n marker)"
  shows "\<not> fst (GroupByTime_put s sample nxt n) \<and>
         fst (snd (GroupByTime_put s sample nxt n)) = s"
  using assms(4)
proof
  assume "upperbound s \<le> timestamp sample \<and> marker = hi_marker s"
  with assms show ?thesis by (simp add: put_forward)
next
  assume "timestamp sample < upperbound s \<and> timestamp sample < lowerbound s \<and>
    marker = lo_marker s"
  with assms show ?thesis by (simp add: put_backward)
qed

theorem C10_refused_marker_keeps_window_witness:
  "\<not> fst (GroupByTime_put \<lparr>step = 10, first_hit = False, lowerbound = 0, upperbound = 10\<rparr>
            (data_sample 12) reject_all ()) \<and>
   fst (snd (GroupByTime_put \<lparr>step = 10, first_hit = False, lowerbound = 0, upperbound = 10\<rparr>
            (data_sample 12) reject_all ()))
     = \<lparr>step = 10, first_hit = False, lowerbound = 0, upperbound = 10\<rparr>"
  using C10_refused_marker_keeps_window
          [of "\<lparr>step = 10, first_hit = False, lowerbound = 0, upperbound = 10\<rparr>"
              "data_sample 12" "SAMPLING_HI_MARGIN\<lparr>timestamp := 10\<rparr>" reject_all "()"]
  by (simp add: data_sample_def hi_marker_def reject_all_def)

section \<open>Arithmetic of the window\<close>

lemmas eval_defs = GroupByTime_put_def first_hit_align_def record_puts_apply accept_all_def
  data_sample_def GroupByTime_step_def Let_def

lemma unat_aligned: "unat (ts div st * st) = unat ts div unat st * unat st"
  for ts st :: u64
proof -
  have "unat ts div unat st * unat st \<le> unat ts" by simp
  also have "\<dots> < 2 ^ LENGTH(64)" by (rule unsigned_less)
  finally have "unat (ts div st) * unat st < 2 ^ LENGTH(64)" by (simp add: unat_div)
  then have "unat (ts div st * st) = unat (ts div st) * unat st"
    by (simp only: unat_mult_lem)
  then show ?thesis by (simp add: unat_div)
qed

lemma bucket_fits_upper:
  assumes "st \<noteq> 0" and "bucket_fits st ts"
  shows "unat (ts div st * st + st) = unat (ts div st * st) + unat st"
    and "ts < ts div st * st + st"
proof -
  from assms(2) have "unat (ts div st * st) + unat st < 2 ^ LENGTH(64)"
    by (simp add: bucket_fits_def)
  then show eq: "unat (ts div st * st + st) = unat (ts div st * st) + unat st"
    by (simp only: unat_add_lem)
  from assms(1) have pos: "0 < unat st" by (simp add: unat_gt_0)
  have "unat ts = unat ts div unat st * unat st + unat ts mod unat st" by simp
  moreover from pos have "unat ts mod unat st < unat st" by simp
  ultimately have "unat ts < unat ts div unat st * unat st + unat st" by linarith
  then show "ts < ts div st * st + st"
    by (simp add: word_less_nat_alt eq unat_aligned)
qed

lemma forward_step_fields [simp]:
  "step (forward_step s) = step s"
  "first_hit (forward_step s) = first_hit s"
  "lowerbound (forward_step s) = lowerbound s + step s"
  "upperbound (forward_step s) = upperbound s + step s"
  by (simp_all add: forward_step_def)

lemma backward_step_fields [simp]:
  "step (backward_step s) = step s"
  "first_hit (backward_step s) = first_hit s"
  "lowerbound (backward_step s) = lowerbound s - step s"
  "upperbound (backward_step s) = upperbound s - step s"
  by (simp_all add: backward_step_def)

lemma window_aligned_forward:
  assumes "window_aligned s" and "unat (upperbound s) + unat (step s) < 2 ^ 64"
  shows "window_aligned (forward_step s)"
proof -
  from assms(1) have w: "unat (upperbound s) = unat (lowerbound s) + unat (step s)"
    and d: "unat (step s) dvd unat (lowerbound s)"
    and f: "step s \<noteq> 0" "\<not> first_hit s"
    by (simp_all add: window_aligned_def)
  have "unat (upperbound s) < 2 ^ LENGTH(64)" by (rule unsigned_less)
  with w have "unat (lowerbound s) + unat (step s) < 2 ^ LENGTH(64)" by simp
  then have lo: "unat (lowerbound s + step s) = unat (lowerbound s) + unat (step s)"
    by (simp only: unat_add_lem)
  from assms(2) have "unat (upperbound s) + unat (step s) < 2 ^ LENGTH(64)" by simp
  then have up: "unat (upperbound s + step s) = unat (upperbound s) + unat (step s)"
    by (simp only: unat_add_lem)
  from d have "unat (step s) dvd unat (lowerbound s) + unat (step s)" by simp
  with lo up w f show ?thesis by (simp add: window_aligned_def)
qed

lemma window_aligned_backward:
  assumes "window_aligned s" and "ts < lowerbound s"
  shows "window_aligned (backward_step s)"
proof -
  from assms(1) have w: "unat (upperbound s) = unat (lowerbound s) + unat (step s)"
    and d: "unat (step s) dvd unat (lowerbound s)"
    and f: "step s \<noteq> 0" "\<not> first_hit s"
    by (simp_all add: window_aligned_def)
  from assms(2) have "0 < unat (lowerbound s)"
    by (simp add: word_less_nat_alt)
  with d have le: "unat (step s) \<le> unat (lowerbound s)" by (simp add: dvd_imp_le)
  then have "step s \<le> lowerbound s" by (simp add: word_le_nat_alt)
  then have lo: "unat (lowerbound s - step s) = unat (lowerbound s) - unat (step s)"
    by (rule unat_sub)
  from w have "step s \<le> upperbound s" by (simp add: word_le_nat_alt)
  then have up: "unat (upperbound s - step s) = unat (upperbound s) - unat (step s)"
    by (rule unat_sub)
  from d le have "unat (step s) dvd unat (lowerbound s) - unat (step s)" by simp
  with lo up w f le show ?thesis by (simp add: window_aligned_def)
qed

lemma window_aligned_first_hit:
  assumes "step s \<noteq> 0" and "first_hit s" and "bucket_fits (step s) ts"
  shows "window_aligned (first_hit_align s ts)"
    and "lowerbound (first_hit_align s ts) \<le> ts"
    and "ts < upperbound (first_hit_align s ts)"
  using assms bucket_fits_upper [of "step s" ts]
  by (simp_all add: first_hit_align_def Let_def window_aligned_def unat_aligned word_div_mult_le)

lemma unat_add_wrapped:
  fixes a b :: u64
  assumes "2 ^ 64 \<le> unat a + unat b"
  shows "unat (a + b) + 2 ^ 64 = unat a + unat b"
proof -
  have a: "unat a < 2 ^ LENGTH(64)" and b: "unat b < 2 ^ LENGTH(64)" by (rule unsigned_less)+
  then have lt: "unat a + unat b - 2 ^ 64 < 2 ^ 64" by simp
  have "unat (a + b) = (unat a + unat b) mod 2 ^ 64" by (simp add: unat_word_ariths)
  also have "\<dots> = (unat a + unat b - 2 ^ 64) mod 2 ^ 64"
    using assms by (simp add: le_mod_geq)
  also have "\<dots> = unat a + unat b - 2 ^ 64" using lt by simp
  finally show ?thesis using assms by simp
qed

lemma forward_wrap_breaks_window:
  assumes "window_aligned s" and "2 ^ 64 \<le> unat (upperbound s) + unat (step s)"
  shows "\<not> window_aligned (forward_step s)"
proof
  assume fw: "window_aligned (forward_step s)"
  from assms(1) have w: "unat (upperbound s) = unat (lowerbound s) + unat (step s)"
    by (simp add: window_aligned_def)
  have "unat (upperbound s) < 2 ^ LENGTH(64)" by (rule unsigned_less)
  with w have "unat (lowerbound s) + unat (step s) < 2 ^ LENGTH(64)" by simp
  then have lo: "unat (lowerbound s + step s) = unat (lowerbound s) + unat (step s)"
    by (simp only: unat_add_lem)
  from fw have "unat (upperbound s + step s) = unat (lowerbound s + step s) + unat (step s)"
    by (simp add: window_aligned_def)
  with lo w have "unat (upperbound s + step s) = unat (upperbound s) + unat (step s)" by simp
  moreover have "unat (upperbound s + step s) < 2 ^ LENGTH(64)" by (rule unsigned_less)
  ultimately show False using assms(2) by simp
qed

lemma next_multiple:
  fixes a st N :: nat
  assumes "st dvd N" and "st dvd a" and "a < N" and "N \<le> a + st"
  shows "a + st = N"
proof -
  from assms(1) obtain m where m: "N = st * m" ..
  from assms(2) obtain k where k: "a = st * k" ..
  from assms(3) m k have "st * k < st * m" by simp
  then have "k < m" and pos: "0 < st" by simp_all
  then have "Suc k \<le> m" by simp
  then have "st * Suc k \<le> st * m" by (rule mult_le_mono2)
  with m k have "a + st \<le> N" by simp
  with assms(4) show ?thesis by simp
qed

lemma first_hit_wrapped:
  assumes "step s \<noteq> 0" and "first_hit s" and "\<not> bucket_fits (step s) ts"
    and "sa = first_hit_align s ts"
  shows "upperbound sa \<le> ts"
    and "\<not> window_aligned sa"
    and "window_aligned (forward_step sa) \<longleftrightarrow> unat (step s) dvd 2 ^ 64"
proof -
  define a where "a = ts div step s * step s"
  have sa: "lowerbound sa = a" "upperbound sa = a + step s" "step sa = step s"
    "\<not> first_hit sa"
    using assms(2,4) by (simp_all add: first_hit_align_def Let_def a_def)
  have ua: "unat a = unat ts div unat (step s) * unat (step s)"
    by (simp add: a_def unat_aligned)
  then have dvd_a: "unat (step s) dvd unat a" by simp
  from ua have a_le: "unat a \<le> unat ts" by simp
  from assms(3) have ge: "2 ^ 64 \<le> unat a + unat (step s)"
    by (simp add: bucket_fits_def a_def)
  then have wrap: "unat (a + step s) + 2 ^ 64 = unat a + unat (step s)"
    by (rule unat_add_wrapped)
  have st_lt: "unat (step s) < 2 ^ LENGTH(64)" and a_lt: "unat a < 2 ^ LENGTH(64)"
    by (rule unsigned_less)+
  from wrap st_lt a_le have "unat (a + step s) \<le> unat ts" by simp
  then show "upperbound sa \<le> ts" by (simp add: sa word_le_nat_alt)
  from wrap show "\<not> window_aligned sa" by (simp add: window_aligned_def sa)
  show "window_aligned (forward_step sa) \<longleftrightarrow> unat (step s) dvd 2 ^ 64"
  proof
    assume "window_aligned (forward_step sa)"
    then have "unat (step s) dvd unat (a + step s)"
      by (simp add: window_aligned_def sa)
    moreover from dvd_a have "unat (step s) dvd unat a + unat (step s)" by simp
    then have "unat (step s) dvd unat (a + step s) + 2 ^ 64"
      by (simp only: wrap)
    ultimately show "unat (step s) dvd 2 ^ 64"
      by (simp only: dvd_add_right_iff)
  next
    assume d: "unat (step s) dvd 2 ^ 64"
    from a_lt have "unat a < 2 ^ 64" by simp
    with d dvd_a have "unat a + unat (step s) = 2 ^ 64" using ge by (rule next_multiple)
    with wrap have "unat (a + step s) = 0" by simp
    then have "a + step s = 0" by (simp add: unat_0_iff)
    with assms(1) show "window_aligned (forward_step sa)"
      by (simp add: window_aligned_def sa)
  qed
qed

section \<open>The forward direction\<close>

text \<open>
  C1, as the claim states it, fails. After a first sample at time 3 the window of an
  operator with step 10 is \<open>[0, 10)\<close>. A sample at time 35 makes the operator emit one
  \<open>HI_MARGIN\<close> marker at time 10 and move the window to \<open>[10, 20)\<close>; the check is not
  repeated, and the sample is forwarded although 35 is not below the upper bound 20.
\<close>

theorem C1_single_advance_counterexample:
  "GroupByTime_put_all (GroupByTime_step 0 10) [data_sample 3, data_sample 35]
      (record_puts accept_all) ([], ())
     = (True, \<lparr>step = 10, first_hit = False, lowerbound = 10, upperbound = 20\<rparr>,
        ([data_sample 3, SAMPLING_HI_MARGIN\<lparr>timestamp := 10\<rparr>, data_sample 35], ())) \<and>
   \<not> timestamp (data_sample 35) < 20"
  by (simp add: eval_defs)

text \<open>
  C1, amended. Let \<open>sa\<close> be the operator after the first-hit alignment, and let the
  sample be non-\<open>EMPTY\<close> with \<open>ts \<ge> upperbound_\<close> there, \<open>step_ > 0\<close>. The operator
  emits exactly one marker, of type \<open>HI_MARGIN\<close> and with the current upper bound as
  its timestamp. If \<open>next\<close> takes the marker, the window moves forward by one step, once,
  and the sample is passed to \<open>next\<close>; if not, the call ends there. The difference of the
  bounds is kept. The forwarded sample lies in the new window when the window was one step
  wide, the new upper bound does not wrap around and \<open>ts\<close> is less than one step past the
  old upper bound.
\<close>

theorem C1_one_marker_one_step_forward:
  assumes "step s \<noteq> 0" and "ptype (payload sample) \<noteq> EMPTY"
    and "sa = first_hit_align s (timestamp sample)"
    and "upperbound sa \<le> timestamp sample"
  shows "GroupByTime_put s sample (record_puts nxt) (log, n) =
           (if fst (nxt n (hi_marker sa))
            then (fst (nxt (snd (nxt n (hi_marker sa))) sample), forward_step sa,
                  (log @ [hi_marker sa, sample], snd (nxt (snd (nxt n (hi_marker sa))) sample)))
            else (False, sa, (log @ [hi_marker sa], snd (nxt n (hi_marker sa))))) \<and>
         ptype (payload (hi_marker sa)) = HI_MARGIN \<and>
         timestamp (hi_marker sa) = upperbound sa \<and>
         upperbound (forward_step sa) - lowerbound (forward_step sa)
           = upperbound sa - lowerbound sa \<and>
         (upperbound sa - lowerbound sa = step sa \<and>
          unat (upperbound sa) + unat (step sa) < 2 ^ 64 \<and>
          unat (timestamp sample) < unat (upperbound sa) + unat (step sa)
          \<longrightarrow> lowerbound (forward_step sa) \<le> timestamp sample \<and>
              timestamp sample < upperbound (forward_step sa))"
proof -
  have put: "GroupByTime_put s sample (record_puts nxt) (log, n) =
           (if fst (nxt n (hi_marker sa))
            then (fst (nxt (snd (nxt n (hi_marker sa))) sample), forward_step sa,
                  (log @ [hi_marker sa, sample], snd (nxt (snd (nxt n (hi_marker sa))) sample)))
            else (False, sa, (log @ [hi_marker sa], snd (nxt n (hi_marker sa)))))"
    using assms by (simp add: put_forward)
  have marker: "ptype (payload (hi_marker sa)) = HI_MARGIN"
    "timestamp (hi_marker sa) = upperbound sa"
    by (simp_all add: hi_marker_def SAMPLING_HI_MARGIN_def)
  have width: "upperbound (forward_step sa) - lowerbound (forward_step sa)
           = upperbound sa - lowerbound sa"
    by simp
  have inside: "lowerbound (forward_step sa) \<le> timestamp sample \<and>
              timestamp sample < upperbound (forward_step sa)"
    if w: "upperbound sa - lowerbound sa = step sa"
      and nw: "unat (upperbound sa) + unat (step sa) < 2 ^ 64"
      and lt: "unat (timestamp sample) < unat (upperbound sa) + unat (step sa)"
  proof -
    from w have "lowerbound sa + step sa = upperbound sa" by (simp add: algebra_simps)
    with assms(4) have lo: "lowerbound (forward_step sa) \<le> timestamp sample" by simp
    from nw have "unat (upperbound sa) + unat (step sa) < 2 ^ LENGTH(64)" by simp
    then have "unat (upperbound sa + step sa) = unat (upperbound sa) + unat (step sa)"
      by (simp only: unat_add_lem)
    with lt have "timestamp sample < upperbound (forward_step sa)"
      by (simp add: word_less_nat_alt)
    with lo show ?thesis ..
  qed
  from put marker width inside show ?thesis by blast
qed

theorem C1_one_marker_one_step_forward_witness:
  "GroupByTime_put \<lparr>step = 10, first_hit = False, lowerbound = 0, upperbound = 10\<rparr>
      (data_sample 12) (record_puts accept_all) ([], ())
   = (True, \<lparr>step = 10, first_hit = False, lowerbound = 10, upperbound = 20\<rparr>,
      ([SAMPLING_HI_MARGIN\<lparr>timestamp := 10\<rparr>, data_sample 12], ())) \<and>
   (10 :: u64) \<le> timestamp (data_sample 12) \<and> timestamp (data_sample 12) < (20 :: u64)"
  using C1_one_marker_one_step_forward
          [where s = "\<lparr>step = 10, first_hit = False, lowerbound = 0, upperbound = 10\<rparr>"
             and sa = "\<lparr>step = 10, first_hit = False, lowerbound = 0, upperbound = 10\<rparr>"
             and sample = "data_sample 12" and nxt = accept_all and n = "()" and log = "[]"]
  by (simp add: data_sample_def hi_marker_def forward_step_def accept_all_def)

section \<open>The backward direction\<close>

text \<open>
  C5, as the claim states it, fails. The test \<open>ts \<ge> upperbound_\<close> comes first, so with
  a window whose upper bound has wrapped around a sample below the lower bound takes the
  forward branch. Step 10 and samples at \<open>2 ^ 64 - 11\<close> and \<open>2 ^ 64 - 4\<close> lead to the
  window with lower bound \<open>2 ^ 64 - 6\<close> and upper bound 4. A sample at time 100 is below
  the lower bound, and the operator emits \<open>HI_MARGIN\<close> at time 4 and moves the window
  forward.
\<close>

theorem C5_forward_branch_first_counterexample:
  "GroupByTime_put_all (GroupByTime_step 0 10)
      [data_sample 18446744073709551605, data_sample 18446744073709551612] accept_all ()
     = (True, \<lparr>step = 10, first_hit = False,
               lowerbound = 18446744073709551610, upperbound = 4\<rparr>, ()) \<and>
   timestamp (data_sample 100) < (18446744073709551610 :: u64) \<and>
   ptype (payload (data_sample 100)) \<noteq> EMPTY \<and>
   GroupByTime_put \<lparr>step = 10, first_hit = False,
                     lowerbound = 18446744073709551610, upperbound = 4\<rparr>
      (data_sample 100) (record_puts accept_all) ([], ())
     = (True, \<lparr>step = 10, first_hit = False, lowerbound = 4, upperbound = 14\<rparr>,
        ([SAMPLING_HI_MARGIN\<lparr>timestamp := 4\<rparr>, data_sample 100], ()))"
  by (simp add: eval_defs)

text \<open>
  C5, amended. With \<open>step_ > 0\<close>, \<open>first_hit_\<close> false and a non-\<open>EMPTY\<close> sample whose
  timestamp is below the lower bound and below the upper bound, the operator emits exactly
  one marker, of type \<open>LO_MARGIN\<close> and with the current upper bound as its timestamp.
  If \<open>next\<close> takes the marker, both bounds go down by one step and the sample is passed
  to \<open>next\<close>; if not, the call ends there.
\<close>

theorem C5_one_marker_one_step_backward:
  assumes "step s \<noteq> 0" and "\<not> first_hit s" and "ptype (payload sample) \<noteq> EMPTY"
    and "timestamp sample < lowerbound s" and "timestamp sample < upperbound s"
  shows "GroupByTime_put s sample (record_puts nxt) (log, n) =
           (if fst (nxt n (lo_marker s))
            then (fst (nxt (snd (nxt n (lo_marker s))) sample), backward_step s,
                  (log @ [lo_marker s, sample], snd (nxt (snd (nxt n (lo_marker s))) sample)))
            else (False, s, (log @ [lo_marker s], snd (nxt n (lo_marker s))))) \<and>
         ptype (payload (lo_marker s)) = LO_MARGIN \<and>
         timestamp (lo_marker s) = upperbound s \<and>
         lowerbound (backward_step s) = lowerbound s - step s \<and>
         upperbound (backward_step s) = upperbound s - step s"
  using assms by (simp add: put_backward lo_marker_def SAMPLING_LO_MARGIN_def)

theorem C5_one_marker_one_step_backward_witness:
  "GroupByTime_put \<lparr>step = 10, first_hit = False, lowerbound = 10, upperbound = 20\<rparr>
      (data_sample 7) (record_puts accept_all) ([], ())
   = (True, \<lparr>step = 10, first_hit = False, lowerbound = 0, upperbound = 10\<rparr>,
      ([SAMPLING_LO_MARGIN\<lparr>timestamp := 20\<rparr>, data_sample 7], ()))"
  using C5_one_marker_one_step_backward
          [where s = "\<lparr>step = 10, first_hit = False, lowerbound = 10, upperbound = 20\<rparr>"
             and sample = "data_sample 7" and nxt = accept_all and n = "()" and log = "[]"]
  by (simp add: data_sample_def lo_marker_def backward_step_def accept_all_def)

section \<open>The first hit\<close>

text \<open>
  C4, as the claim states it, fails. With step 10 and a first sample at \<open>2 ^ 64 - 1\<close> the
  aligned lower bound is \<open>2 ^ 64 - 6\<close>, and adding the step wraps the upper bound around
  to 4. The sample is then at or above the upper bound, the window moves forward, and the
  call leaves the lower bound at 4, not at \<open>ts / step_ * step_\<close>.
\<close>

theorem C4_first_put_wraps_counterexample:
  "first_hit (GroupByTime_step 0 10) \<and> step (GroupByTime_step 0 10) \<noteq> 0 \<and>
   ptype (payload (data_sample 18446744073709551615)) \<noteq> EMPTY \<and>
   lowerbound (fst (snd (GroupByTime_put (GroupByTime_step 0 10)
      (data_sample 18446744073709551615) accept_all ()))) = 4 \<and>
   timestamp (data_sample 18446744073709551615) div 10 * 10 = (18446744073709551610 :: u64)"
  by (simp add: eval_defs)

text \<open>
  C4, amended. With \<open>step_ > 0\<close> and \<open>first_hit_\<close> true, the first put of a
  non-\<open>EMPTY\<close> sample clears \<open>first_hit_\<close>. When \<open>ts / step_ * step_ + step_\<close> does
  not wrap around, the call sets the lower bound to \<open>ts / step_ * step_\<close> and the upper
  bound to the lower bound plus \<open>step_\<close>, emits no marker and passes the sample on.
\<close>

theorem C4_first_put_aligns_window:
  assumes "step s \<noteq> 0" and "first_hit s" and "ptype (payload sample) \<noteq> EMPTY"
  shows "\<not> first_hit (fst (snd (GroupByTime_put s sample (record_puts nxt) (log, n)))) \<and>
         (bucket_fits (step s) (timestamp sample) \<longrightarrow>
            GroupByTime_put s sample (record_puts nxt) (log, n) =
              (fst (nxt n sample),
               s\<lparr>first_hit := False,
                  lowerbound := timestamp sample div step s * step s,
                  upperbound := timestamp sample div step s * step s + step s\<rparr>,
               (log @ [sample], snd (nxt n sample))))"
proof
  define s1 where "s1 = first_hit_align s (timestamp sample)"
  consider (hi) "upperbound s1 \<le> timestamp sample"
    | (lo) "timestamp sample < upperbound s1" "timestamp sample < lowerbound s1"
    | (mid) "timestamp sample < upperbound s1" "lowerbound s1 \<le> timestamp sample"
    by fastforce
  then show "\<not> first_hit (fst (snd (GroupByTime_put s sample (record_puts nxt) (log, n))))"
  proof cases
    case hi
    with assms s1_def show ?thesis by (simp add: put_forward)
  next
    case lo
    with assms s1_def show ?thesis by (simp add: put_backward)
  next
    case mid
    with assms s1_def show ?thesis by (simp add: put_inside)
  qed
next
  show "bucket_fits (step s) (timestamp sample) \<longrightarrow>
            GroupByTime_put s sample (record_puts nxt) (log, n) =
              (fst (nxt n sample),
               s\<lparr>first_hit := False,
                  lowerbound := timestamp sample div step s * step s,
                  upperbound := timestamp sample div step s * step s + step s\<rparr>,
               (log @ [sample], snd (nxt n sample)))"
  proof
    assume fits: "bucket_fits (step s) (timestamp sample)"
    from assms(1,2) fits have "lowerbound (first_hit_align s (timestamp sample)) \<le> timestamp sample"
      and "timestamp sample < upperbound (first_hit_align s (timestamp sample))"
      by (rule window_aligned_first_hit)+
    with assms have "GroupByTime_put s sample (record_puts nxt) (log, n) =
        (fst (nxt n sample), first_hit_align s (timestamp sample), (log @ [sample], snd (nxt n sample)))"
      by (simp add: put_inside)
    with assms(2) show "GroupByTime_put s sample (record_puts nxt) (log, n) =
              (fst (nxt n sample),
               s\<lparr>first_hit := False,
                  lowerbound := timestamp sample div step s * step s,
                  upperbound := timestamp sample div step s * step s + step s\<rparr>,
               (log @ [sample], snd (nxt n sample)))"
      by (simp add: first_hit_align_def Let_def)
  qed
qed

theorem C4_first_put_aligns_window_witness:
  "GroupByTime_put (GroupByTime_step 0 10) (data_sample 23) (record_puts accept_all) ([], ())
     = (True, \<lparr>step = 10, first_hit = False, lowerbound = 20, upperbound = 30\<rparr>,
        ([data_sample 23], ()))"
  using C4_first_put_aligns_window [where s = "GroupByTime_step 0 10" and sample = "data_sample 23"
                      and nxt = accept_all and n = "()" and log = "[]"]
  by (simp add: GroupByTime_step_def data_sample_def bucket_fits_def accept_all_def)

section \<open>The window stays aligned\<close>

text \<open>
  C8, as the claim states it, fails at the top of the range of timestamps. From the
  aligned window \<open>[2 ^ 64 - 16, 2 ^ 64 - 6)\<close> with step 10, a sample at \<open>2 ^ 64 - 4\<close>
  moves the window forward; the new upper bound wraps around to 4, so it is the lower
  bound plus the step only modulo \<open>2 ^ 64\<close>. From that window, a sample at time 100 moves
  the window forward again, to the lower bound 4, which is not a multiple of 10. The
  first put does not establish the state either when the aligned bucket wraps around:
  with step 10 and a first sample at \<open>2 ^ 64 - 1\<close> the call ends with the lower bound 4.
\<close>

theorem C8_wrapped_window_counterexample:
  "window_aligned \<lparr>step = 10, first_hit = False,
      lowerbound = 18446744073709551600, upperbound = 18446744073709551610\<rparr> \<and>
   fst (snd (GroupByTime_put \<lparr>step = 10, first_hit = False,
      lowerbound = 18446744073709551600, upperbound = 18446744073709551610\<rparr>
      (data_sample 18446744073709551612) accept_all ()))
     = \<lparr>step = 10, first_hit = False, lowerbound = 18446744073709551610, upperbound = 4\<rparr> \<and>
   \<not> window_aligned
      \<lparr>step = 10, first_hit = False, lowerbound = 18446744073709551610, upperbound = 4\<rparr> \<and>
   unat (4 :: u64) \<noteq> unat (18446744073709551610 :: u64) + unat (10 :: u64) \<and>
   (4 :: u64) = 18446744073709551610 + 10 \<and>
   unat (10 :: u64) dvd unat (18446744073709551610 :: u64) \<and>
   fst (snd (GroupByTime_put
      \<lparr>step = 10, first_hit = False, lowerbound = 18446744073709551610, upperbound = 4\<rparr>
      (data_sample 100) accept_all ()))
     = \<lparr>step = 10, first_hit = False, lowerbound = 4, upperbound = 14\<rparr> \<and>
   \<not> unat (10 :: u64) dvd unat (4 :: u64) \<and>
   fst (snd (GroupByTime_put (GroupByTime_step 0 10)
      (data_sample 18446744073709551615) accept_all ()))
     = \<lparr>step = 10, first_hit = False, lowerbound = 4, upperbound = 14\<rparr> \<and>
   \<not> window_aligned \<lparr>step = 10, first_hit = False, lowerbound = 4, upperbound = 14\<rparr>"
  by (simp add: eval_defs window_aligned_def)

text \<open>
  C8, amended. Take the width of the window without wrap-around: the state is
  \<open>step_ > 0\<close>, \<open>first_hit_\<close> false, the upper bound equal to the lower bound plus
  \<open>step_\<close> as numbers, and the lower bound a multiple of \<open>step_\<close>. From such a state
  every call of put ends in such a state, with one exception exactly: a call that moves
  the window forward (a non-\<open>EMPTY\<close> sample with \<open>ts \<ge> upperbound_\<close> whose marker
  \<open>next\<close> takes) while \<open>upperbound_ + step_\<close> is \<open>2 ^ 64\<close> or more. From a state with
  \<open>step_ > 0\<close> and \<open>first_hit_\<close> true, the first put of a non-\<open>EMPTY\<close> sample ends in
  such a state exactly when \<open>ts / step_ * step_ + step_\<close> is below \<open>2 ^ 64\<close>, or
  \<open>step_\<close> divides \<open>2 ^ 64\<close> and \<open>next\<close> takes the marker that the wrapped upper
  bound brings about.
\<close>

theorem C8_window_stays_aligned:
  "(window_aligned s \<longrightarrow>
      (window_aligned (fst (snd (GroupByTime_put s sample nxt n))) \<longleftrightarrow>
         \<not> (ptype (payload sample) \<noteq> EMPTY \<and> upperbound s \<le> timestamp sample \<and>
            fst (nxt n (hi_marker s)) \<and>
            2 ^ 64 \<le> unat (upperbound s) + unat (step s)))) \<and>
   (step s \<noteq> 0 \<and> first_hit s \<and> ptype (payload sample) \<noteq> EMPTY \<longrightarrow>
      (window_aligned (fst (snd (GroupByTime_put s sample nxt n))) \<longleftrightarrow>
         bucket_fits (step s) (timestamp sample) \<or>
         unat (step s) dvd 2 ^ 64 \<and>
           fst (nxt n (hi_marker (first_hit_align s (timestamp sample))))))"
proof (intro conjI impI)
  assume w: "window_aligned s"
  then have st: "step s \<noteq> 0" and fh: "\<not> first_hit s" by (simp_all add: window_aligned_def)
  from fh have sa: "s = first_hit_align s (timestamp sample)" by simp
  show "window_aligned (fst (snd (GroupByTime_put s sample nxt n))) \<longleftrightarrow>
         \<not> (ptype (payload sample) \<noteq> EMPTY \<and> upperbound s \<le> timestamp sample \<and>
            fst (nxt n (hi_marker s)) \<and>
            2 ^ 64 \<le> unat (upperbound s) + unat (step s))"
  proof (cases "ptype (payload sample) = EMPTY")
    case True
    with w show ?thesis by (simp add: put_pass)
  next
    case ne: False
    consider (hi) "upperbound s \<le> timestamp sample"
      | (lo) "timestamp sample < upperbound s" "timestamp sample < lowerbound s"
      | (mid) "timestamp sample < upperbound s" "lowerbound s \<le> timestamp sample"
      by fastforce
    then show ?thesis
    proof cases
      case hi
      show ?thesis
      proof (cases "fst (nxt n (hi_marker s))")
        case False
        with st ne sa hi w show ?thesis by (simp add: put_forward)
      next
        case acc: True
        from st ne sa hi acc
        have fin: "fst (snd (GroupByTime_put s sample nxt n)) = forward_step s"
          by (simp add: put_forward)
        show ?thesis
        proof (cases "2 ^ 64 \<le> unat (upperbound s) + unat (step s)")
          case True
          with w have "\<not> window_aligned (forward_step s)" by (rule forward_wrap_breaks_window)
          with fin ne hi acc True show ?thesis by simp
        next
          case False
          then have "unat (upperbound s) + unat (step s) < 2 ^ 64" by simp
          with w have "window_aligned (forward_step s)" by (rule window_aligned_forward)
          with fin False show ?thesis by simp
        qed
      qed
    next
      case lo
      from w lo(2) have "window_aligned (backward_step s)" by (rule window_aligned_backward)
      moreover from lo(1) have "\<not> upperbound s \<le> timestamp sample" by simp
      ultimately show ?thesis using st ne sa lo w by (simp add: put_backward)
    next
      case mid
      from mid(1) have "\<not> upperbound s \<le> timestamp sample" by simp
      with mid st ne sa w show ?thesis by (simp add: put_inside)
    qed
  qed
next
  assume a: "step s \<noteq> 0 \<and> first_hit s \<and> ptype (payload sample) \<noteq> EMPTY"
  define sa where "sa = first_hit_align s (timestamp sample)"
  show "window_aligned (fst (snd (GroupByTime_put s sample nxt n))) \<longleftrightarrow>
         bucket_fits (step s) (timestamp sample) \<or>
         unat (step s) dvd 2 ^ 64 \<and>
           fst (nxt n (hi_marker (first_hit_align s (timestamp sample))))"
  proof (cases "bucket_fits (step s) (timestamp sample)")
    case True
    with a have "window_aligned sa" and "lowerbound sa \<le> timestamp sample"
      and "timestamp sample < upperbound sa"
      unfolding sa_def by (simp_all add: window_aligned_first_hit)
    with a sa_def True show ?thesis by (simp add: put_inside)
  next
    case False
    from a have st: "step s \<noteq> 0" and fh: "first_hit s" by simp_all
    note wrapped = first_hit_wrapped [OF st fh False sa_def]
    have hi: "upperbound sa \<le> timestamp sample" by (rule wrapped(1))
    have nw: "\<not> window_aligned sa" by (rule wrapped(2))
    have fw: "window_aligned (forward_step sa) \<longleftrightarrow> unat (step s) dvd 2 ^ 64"
      by (rule wrapped(3))
    from a sa_def hi
    have "fst (snd (GroupByTime_put s sample nxt n)) =
            (if fst (nxt n (hi_marker sa)) then forward_step sa else sa)"
      by (simp add: put_forward)
    with nw fw False show ?thesis unfolding sa_def by auto
  qed
qed

theorem C8_window_stays_aligned_witness:
  "window_aligned \<lparr>step = 10, first_hit = False, lowerbound = 0, upperbound = 10\<rparr> \<and>
   window_aligned (fst (snd (GroupByTime_put
      \<lparr>step = 10, first_hit = False, lowerbound = 0, upperbound = 10\<rparr>
      (data_sample 18446744073709551615) accept_all ()))) \<and>
   first_hit (GroupByTime_step 0 10) \<and>
   window_aligned (fst (snd (GroupByTime_put (GroupByTime_step 0 10)
      (data_sample 12) accept_all ()))) \<and>
   window_aligned (fst (snd (GroupByTime_put (GroupByTime_step 0 16)
      (data_sample 18446744073709551615) accept_all ())))"
  using C8_window_stays_aligned
          [where s = "\<lparr>step = 10, first_hit = False, lowerbound = 0, upperbound = 10\<rparr>"
             and sample = "data_sample 18446744073709551615"
             and nxt = accept_all and n = "()"]
        C8_window_stays_aligned
          [where s = "GroupByTime_step 0 10"
             and sample = "data_sample 12" and nxt = accept_all and n = "()"]
        C8_window_stays_aligned
          [where s = "GroupByTime_step 0 16"
             and sample = "data_sample 18446744073709551615"
             and nxt = accept_all and n = "()"]
  by (simp add: GroupByTime_step_def data_sample_def bucket_fits_def window_aligned_def
        accept_all_def)

section \<open>A stream of five samples\<close>

text \<open>
  C2, as the claim states it, fails. With step 10 and samples at 3, 7, 12, 19 and 23 the
  markers delivered downstream are those at 10 and 20. No call of put emits a marker at
  30: the last bucket stays open.
\<close>

theorem C2_no_marker_at_30_counterexample:
  "hi_margin_timestamps (fst (snd (snd (GroupByTime_put_all (GroupByTime_step 0 10)
      [data_sample 3, data_sample 7, data_sample 12, data_sample 19, data_sample 23]
      (record_puts accept_all) ([], ()))))) = [10, 20] \<and>
   hi_margin_timestamps (fst (snd (snd (GroupByTime_put_all (GroupByTime_step 0 10)
      [data_sample 3, data_sample 7, data_sample 12, data_sample 19, data_sample 23]
      (record_puts accept_all) ([], ()))))) \<noteq> [10, 20, 30]"
  by (simp add: eval_defs hi_margin_timestamps_def SAMPLING_HI_MARGIN_def)

text \<open>
  C2, amended. For non-\<open>EMPTY\<close> samples with timestamps 3, 7, 12, 19 and 23, put in that
  order into an operator constructed with step 10, the samples delivered downstream are
  the five samples with a \<open>HI_MARGIN\<close> marker at 10 before the third and a \<open>HI_MARGIN\<close>
  marker at 20 before the fifth. The window is left at \<open>[20, 30)\<close>.
\<close>

theorem C2_markers_at_10_and_20:
  assumes "ptype (payload x1) \<noteq> EMPTY" and "ptype (payload x2) \<noteq> EMPTY"
    and "ptype (payload x3) \<noteq> EMPTY" and "ptype (payload x4) \<noteq> EMPTY"
    and "ptype (payload x5) \<noteq> EMPTY"
    and "timestamp x1 = 3" and "timestamp x2 = 7" and "timestamp x3 = 12"
    and "timestamp x4 = 19" and "timestamp x5 = 23"
  shows "GroupByTime_put_all (GroupByTime_step m 10) [x1, x2, x3, x4, x5]
           (record_puts accept_all) ([], ())
         = (True, \<lparr>step = 10, first_hit = False, lowerbound = 20, upperbound = 30\<rparr>,
            ([x1, x2, SAMPLING_HI_MARGIN\<lparr>timestamp := 10\<rparr>, x3, x4,
              SAMPLING_HI_MARGIN\<lparr>timestamp := 20\<rparr>, x5], ()))"
  using assms by (simp add: eval_defs)

theorem C2_markers_at_10_and_20_witness:
  "GroupByTime_put_all (GroupByTime_step 0 10)
      [data_sample 3, data_sample 7, data_sample 12, data_sample 19, data_sample 23]
      (record_puts accept_all) ([], ())
   = (True, \<lparr>step = 10, first_hit = False, lowerbound = 20, upperbound = 30\<rparr>,
      ([data_sample 3, data_sample 7, SAMPLING_HI_MARGIN\<lparr>timestamp := 10\<rparr>,
        data_sample 12, data_sample 19, SAMPLING_HI_MARGIN\<lparr>timestamp := 20\<rparr>,
        data_sample 23], ()))"
  using C2_markers_at_10_and_20
          [where ?x1.0 = "data_sample 3" and ?x2.0 = "data_sample 7"
             and ?x3.0 = "data_sample 12" and ?x4.0 = "data_sample 19"
             and ?x5.0 = "data_sample 23" and m = 0]
  by (simp add: data_sample_def)

section \<open>Ids of a joined name\<close>

lemma split_on_nonempty [simp]: "split_on d s \<noteq> []"
  by (induction s) (auto split: list.splits)

lemma split_on_no_delim: "d \<notin> set x \<Longrightarrow> split_on d x = [x]"
  by (induction x) auto

lemma split_on_append:
  "d \<notin> set x \<Longrightarrow> split_on d (x @ d # s) = x # split_on d s"
  by (induction x) auto

lemma split_on_join:
  assumes "xs \<noteq> []" and "\<forall>x \<in> set xs. d \<notin> set x"
  shows "split_on d (join_with d xs) = xs"
  using assms
  by (induction d xs rule: join_with.induct) (simp_all add: split_on_no_delim split_on_append)

lemma set_join_with: "set (join_with d xs) \<subseteq> insert d (\<Union> (set ` set xs))"
  by (induction d xs rule: join_with.induct) auto

lemma join_with_Cons: "zs \<noteq> [] \<Longrightarrow> join_with d (x # zs) = x @ d # join_with d zs"
  by (cases zs) simp_all

lemma join_with_append_last:
  "ms \<noteq> [] \<Longrightarrow> join_with d ms @ t = join_with d (butlast ms @ [last ms @ t])"
  by (induction d ms rule: join_with.induct) (simp_all add: join_with_Cons)

lemma cut_at_space:
  assumes "CHR '' '' \<notin> set m" and "tags = [] \<or> hd tags = CHR '' ''"
  shows "takeWhile (\<lambda>c. c \<noteq> CHR '' '') (m @ tags) = m"
    and "dropWhile (\<lambda>c. c \<noteq> CHR '' '') (m @ tags) = tags"
proof -
  from assms(1) have m: "\<forall>c \<in> set m. c \<noteq> CHR '' ''" by auto
  from assms(2) have "takeWhile (\<lambda>c. c \<noteq> CHR '' '') tags = []"
    and "dropWhile (\<lambda>c. c \<noteq> CHR '' '') tags = tags"
    by (cases tags; auto)+
  with m show "takeWhile (\<lambda>c. c \<noteq> CHR '' '') (m @ tags) = m"
    and "dropWhile (\<lambda>c. c \<noteq> CHR '' '') (m @ tags) = tags"
    by simp_all
qed

lemma pieces_of_joined:
  assumes "ms \<noteq> []"
    and "\<forall>m \<in> set ms. CHR '':'' \<notin> set m \<and> CHR '' '' \<notin> set m"
    and "tags = [] \<or> hd tags = CHR '' ''" and "CHR '':'' \<notin> set tags"
  shows "sub_names (join_with CHR '':'' ms @ tags) = ms"
    and "shared_tags (join_with CHR '':'' ms @ tags) = tags"
proof -
  let ?ps = "butlast ms @ [last ms @ tags]"
  from assms(1,2) have lst: "CHR '':'' \<notin> set (last ms)" "CHR '' '' \<notin> set (last ms)"
    by simp_all
  have "\<forall>p \<in> set ?ps. CHR '':'' \<notin> set p"
    using assms(2,4) lst by (auto dest: in_set_butlastD)
  then have "split_on CHR '':'' (join_with CHR '':'' ?ps) = ?ps"
    by (simp add: split_on_join)
  with assms(1) have pieces: "name_pieces (join_with CHR '':'' ms @ tags) = ?ps"
    by (simp add: name_pieces_def join_with_append_last)
  from lst(2) assms(3)
  have "takeWhile (\<lambda>c. c \<noteq> CHR '' '') (last ms @ tags) = last ms"
    and "dropWhile (\<lambda>c. c \<noteq> CHR '' '') (last ms @ tags) = tags"
    by (rule cut_at_space)+
  with pieces assms(1) show "sub_names (join_with CHR '':'' ms @ tags) = ms"
    and "shared_tags (join_with CHR '':'' ms @ tags) = tags"
    by (simp_all add: sub_names_def shared_tags_def)
qed

text \<open>
  C7. A well-formed joined name is the text of \<open>k \<ge> 1\<close> sub-names without colon or
  space, joined by colons, followed by the tags (nothing, or a text without colon that
  starts with a space). When the array holds at least \<open>k\<close> ids, \<open>get_series_ids\<close>
  writes the ids of the \<open>k\<close> series \<open>sub-name tags\<close> to the front of the array, in the
  order of the sub-names, and returns \<open>k\<close>. When a piece of the name before the last
  parses as tagged, as \<open>cpu host=b\<close> does in \<open>cpu host=b:mem host=a\<close>, the call
  returns the code of \<open>BadInput\<close> times \<open>-1\<close> and leaves the array as it was.
\<close>

theorem C7_get_series_ids:
  "(ms \<noteq> [] \<and> (\<forall>m \<in> set ms. CHR '':'' \<notin> set m \<and> CHR '' '' \<notin> set m) \<and>
    (tags = [] \<or> hd tags = CHR '' '') \<and> CHR '':'' \<notin> set tags \<longrightarrow>
      get_series_ids series_id code (join_with CHR '':'' ms @ tags) ids =
        (if length ms \<le> length ids
         then (int (length ms), map (\<lambda>m. series_id (m @ tags)) ms @ drop (length ms) ids)
         else (- int (code BadInput), ids))) \<and>
   (ps \<noteq> [] \<and> (\<forall>p \<in> set ps. CHR '':'' \<notin> set p) \<and>
    (\<exists>p \<in> set (butlast ps). parses_as_tagged p) \<longrightarrow>
      get_series_ids series_id code (join_with CHR '':'' ps) ids
        = (- int (code BadInput), ids))"
proof (intro conjI impI)
  assume a: "ms \<noteq> [] \<and> (\<forall>m \<in> set ms. CHR '':'' \<notin> set m \<and> CHR '' '' \<notin> set m) \<and>
    (tags = [] \<or> hd tags = CHR '' '') \<and> CHR '':'' \<notin> set tags"
  then have "sub_names (join_with CHR '':'' ms @ tags) = ms"
    and "shared_tags (join_with CHR '':'' ms @ tags) = tags"
    by (simp_all add: pieces_of_joined)
  moreover from a have "\<not> (\<exists>m \<in> set ms. parses_as_tagged m)"
    by (simp add: parses_as_tagged_def)
  ultimately show "get_series_ids series_id code (join_with CHR '':'' ms @ tags) ids =
        (if length ms \<le> length ids
         then (int (length ms), map (\<lambda>m. series_id (m @ tags)) ms @ drop (length ms) ids)
         else (- int (code BadInput), ids))"
    by (simp add: get_series_ids_def joined_series_def Let_def comp_def)
next
  assume b: "ps \<noteq> [] \<and> (\<forall>p \<in> set ps. CHR '':'' \<notin> set p) \<and>
    (\<exists>p \<in> set (butlast ps). parses_as_tagged p)"
  then have "name_pieces (join_with CHR '':'' ps) = ps"
    by (simp add: name_pieces_def split_on_join)
  with b have "\<exists>m \<in> set (sub_names (join_with CHR '':'' ps)). parses_as_tagged m"
    by (auto simp add: sub_names_def)
  then show "get_series_ids series_id code (join_with CHR '':'' ps) ids
        = (- int (code BadInput), ids)"
    by (simp add: get_series_ids_def)
qed

theorem C7_get_series_ids_witness:
  "get_series_ids (\<lambda>nm. if nm = ''cpu host=a'' then 7 else 8) (\<lambda>st. 3)
      ''cpu:mem host=a'' [0, 0] = (2, [7, 8]) \<and>
   get_series_ids (\<lambda>nm. if nm = ''cpu host=a'' then 7 else 8) (\<lambda>st. 3)
      ''cpu host=b:mem host=a'' [0, 0] = (- 3, [0, 0])"
  using C7_get_series_ids [where ms = "[''cpu'', ''mem'']" and tags = "'' host=a''"
          and ps = "[''cpu host=b'', ''mem host=a'']" and ids = "[0, 0]"
          and series_id = "\<lambda>nm. if nm = ''cpu host=a'' then 7 else 8" and code = "\<lambda>st. 3"]
  by (simp add: parses_as_tagged_def)

end
